theory Spec2Isabelle
  imports Main
begin

section \<open>Values received from the wire\<close>

text \<open>
  The handlers of \<^verbatim>\<open>src/api/index.ts\<close> take their arguments as \<^verbatim>\<open>any\<close>: whatever the
  client sent. A value is what the JSON decoding of a packet can produce, or
  \<^verbatim>\<open>undefined\<close> for an argument the client left out.

  \<^item> A string is a list of code units; the model covers the code units below 256.
  \<^item> A number is carried by the text \<^verbatim>\<open>Number.prototype.toString\<close> gives it. The program
    looks at a number only through its text, its truthiness and \<^verbatim>\<open>typeof\<close>, and the
    falsy numbers (0, -0, NaN) are those whose text is \<^verbatim>\<open>0\<close> or \<^verbatim>\<open>NaN\<close>.
  \<^item> An object is the list of its own properties, as \<^verbatim>\<open>JSON.parse\<close> created them; of
    two entries with one name the first is the property. No property value is a
    function.
  \<^item> Binary attachments are not covered.
\<close>

datatype jsval =
    JUndefined
  | JNull
  | JBool bool
  | JNum string
  | JStr string
  | JArr "jsval list"
  | JObj "(string \<times> jsval) list"

datatype error = ReferenceError | TypeError

text \<open>\<^verbatim>\<open>a ?? b\<close>: the right operand only when the left one is \<^verbatim>\<open>undefined\<close> or \<^verbatim>\<open>null\<close>.\<close>

fun nullish :: "jsval \<Rightarrow> bool" where
  "nullish JUndefined = True"
| "nullish JNull = True"
| "nullish _ = False"

definition coalesce :: "jsval \<Rightarrow> jsval \<Rightarrow> jsval" where
  "coalesce a b = (if nullish a then b else a)"

text \<open>ToBoolean, as \<^verbatim>\<open>!v\<close> and \<^verbatim>\<open>if (v)\<close> use it.\<close>

fun truthy :: "jsval \<Rightarrow> bool" where
  "truthy JUndefined = False"
| "truthy JNull = False"
| "truthy (JBool b) = b"
| "truthy (JNum t) = (t \<noteq> ''0'' \<and> t \<noteq> ''NaN'')"
| "truthy (JStr s) = (s \<noteq> [])"
| "truthy (JArr _) = True"
| "truthy (JObj _) = True"

text \<open>
  Reading one of the properties \<^verbatim>\<open>uid\<close>, \<^verbatim>\<open>userId\<close>, \<^verbatim>\<open>id\<close>, \<^verbatim>\<open>message\<close>, \<^verbatim>\<open>room\<close>,
  \<^verbatim>\<open>timestamp\<close>, \<^verbatim>\<open>clientId\<close> of a value. None of these names is defined on a built-in
  prototype, so the result is the own property of an object and \<^verbatim>\<open>undefined\<close> on every
  other value; reading a property of \<^verbatim>\<open>undefined\<close> or \<^verbatim>\<open>null\<close> raises TypeError.
\<close>

fun get_prop :: "jsval \<Rightarrow> string \<Rightarrow> error + jsval" where
  "get_prop JUndefined k = Inl TypeError"
| "get_prop JNull k = Inl TypeError"
| "get_prop (JObj ps) k = Inr (case map_of ps k of None \<Rightarrow> JUndefined | Some v \<Rightarrow> v)"
| "get_prop _ k = Inr JUndefined"

text \<open>\<^verbatim>\<open>v?.k\<close>: \<^verbatim>\<open>undefined\<close> instead of the TypeError.\<close>

definition opt_prop :: "jsval \<Rightarrow> string \<Rightarrow> jsval" where
  "opt_prop v k = (case get_prop v k of Inl _ \<Rightarrow> JUndefined | Inr x \<Rightarrow> x)"

text \<open>
  ToString, which \<^verbatim>\<open>String(v)\<close> and a computed property key \<^verbatim>\<open>o[v]\<close> apply. On a value
  that is neither \<^verbatim>\<open>undefined\<close> nor \<^verbatim>\<open>null\<close> the method call \<^verbatim>\<open>v.toString()\<close> gives the
  same result, and the program calls the method on such values only.

  An array is joined with commas, \<^verbatim>\<open>undefined\<close> and \<^verbatim>\<open>null\<close> elements giving the empty
  text. A decoded object inherits \<^verbatim>\<open>Object.prototype.toString\<close> unless it has an own
  property of that name; the own property is then no function, and both the method call
  and the conversion raise TypeError.
\<close>

fun ToString :: "jsval \<Rightarrow> error + string"
  and join :: "jsval list \<Rightarrow> error + string" where
  "ToString JUndefined = Inr ''undefined''"
| "ToString JNull = Inr ''null''"
| "ToString (JBool b) = Inr (if b then ''true'' else ''false'')"
| "ToString (JNum t) = Inr t"
| "ToString (JStr s) = Inr s"
| "ToString (JArr xs) = join xs"
| "ToString (JObj ps) =
     (if ''toString'' \<in> fst ` set ps then Inl TypeError else Inr ''[object Object]'')"
| "join [] = Inr []"
| "join (x # xs) =
     (case (if nullish x then Inr [] else ToString x) of
        Inl e \<Rightarrow> Inl e
      | Inr t \<Rightarrow>
          (if xs = [] then Inr t
           else (case join xs of Inl e \<Rightarrow> Inl e | Inr r \<Rightarrow> Inr (t @ '','' @ r))))"

text \<open>
  \<^verbatim>\<open>String.prototype.trim\<close> removes white space and line terminators from both ends:
  among the code units below 256 these are TAB, LF, VT, FF, CR, SPACE and NBSP.
\<close>

definition white :: "char \<Rightarrow> bool" where
  "white c = (of_char c \<in> {9, 10, 11, 12, 13, 32, 160 :: nat})"

definition trim :: "string \<Rightarrow> string" where
  "trim s = rev (dropWhile white (rev (dropWhile white s)))"

section \<open>The registry and the connections\<close>

text \<open>\<^verbatim>\<open>type OnlineUser = { socketId: string; userId: string }\<close>\<close>

record OnlineUser =
  socketId :: string
  userId :: string

text \<open>
  \<^verbatim>\<open>socket.data\<close>, which starts as the empty object: \<^verbatim>\<open>room\<close> and \<^verbatim>\<open>userId\<close> are set by
  \<^verbatim>\<open>joinRoom\<close> and deleted by \<^verbatim>\<open>leaveRoom\<close>.
\<close>

record socket_data =
  data_room :: "string option"
  data_userId :: "string option"

text \<open>
  The module's two variables \<^verbatim>\<open>onlineUsers\<close> and \<^verbatim>\<open>roomUsers\<close>, and the data of every
  connected socket by socket id.
\<close>

record server =
  onlineUsers :: "OnlineUser list"
  roomUsers :: "string \<rightharpoonup> OnlineUser list"
  sockets :: "string \<rightharpoonup> socket_data"

definition init :: server where
  "init = \<lparr>onlineUsers = [], roomUsers = Map.empty, sockets = Map.empty\<rparr>"

text \<open>
  What a handler asks of the transport and of the console, in the order of the calls:
  \<^verbatim>\<open>socket.join(room)\<close>, \<^verbatim>\<open>socket.leave(room)\<close>, \<^verbatim>\<open>io.emit("usersOnline", users)\<close>,
  \<^verbatim>\<open>io.to(room).emit("usersOnline", users)\<close>, \<^verbatim>\<open>io.to(room).emit("chat:message", message)\<close>,
  the \<^verbatim>\<open>console.log\<close> of a connection (socket id and number of users online) and
  \<^verbatim>\<open>console.warn\<close>.
\<close>

datatype effect =
    Socket_join string string
  | Socket_leave string string
  | Io_emit_usersOnline "OnlineUser list"
  | Io_to_usersOnline string "OnlineUser list"
  | Io_to_chat_message jsval jsval
  | Console_log_connected string nat
  | Console_warn string

text \<open>
  The result of a handler: the error it raised, if any, the calls it made before
  returning or raising, and the state it left.
\<close>

type_synonym outcome = "error option \<times> effect list \<times> server"

text \<open>
  \<^verbatim>\<open>roomUsers\<close> is the object literal \<^verbatim>\<open>{}\<close>, whose prototype is \<^verbatim>\<open>Object.prototype\<close>. For
  a name that is no own property, \<^verbatim>\<open>roomUsers[room]\<close> reads the prototype: it is
  \<^verbatim>\<open>undefined\<close>, and \<^verbatim>\<open>?? []\<close> gives the empty array, unless the name is one of those
  \<^verbatim>\<open>Object.prototype\<close> defines. For these the value read is a function (or, for
  \<^verbatim>\<open>__proto__\<close>, the prototype itself), which has no \<^verbatim>\<open>findIndex\<close>, \<^verbatim>\<open>filter\<close> or \<^verbatim>\<open>find\<close>:
  the array method call that every handler makes next raises TypeError.
\<close>

definition Object_prototype_names :: "string list" where
  "Object_prototype_names =
     [''constructor'', ''__defineGetter__'', ''__defineSetter__'', ''hasOwnProperty'',
      ''__lookupGetter__'', ''__lookupSetter__'', ''isPrototypeOf'',
      ''propertyIsEnumerable'', ''toString'', ''valueOf'', ''__proto__'',
      ''toLocaleString'']"

definition room_members :: "(string \<rightharpoonup> OnlineUser list) \<Rightarrow> string \<Rightarrow> error + OnlineUser list" where
  "room_members ru room =
     (case ru room of
        Some users \<Rightarrow> Inr users
      | None \<Rightarrow> if room \<in> set Object_prototype_names then Inl TypeError else Inr [])"

text \<open>\<^verbatim>\<open>Array.prototype.findIndex\<close>, with \<open>None\<close> for -1.\<close>

fun findIndex :: "('a \<Rightarrow> bool) \<Rightarrow> 'a list \<Rightarrow> nat option" where
  "findIndex P [] = None"
| "findIndex P (x # xs) = (if P x then Some 0 else map_option Suc (findIndex P xs))"

section \<open>The handlers\<close>

text \<open>\<^verbatim>\<open>(roomRaw ?? "").toString().trim()\<close>\<close>

definition normalize_room :: "jsval \<Rightarrow> error + string" where
  "normalize_room roomRaw =
     (case ToString (coalesce roomRaw (JStr [])) of
        Inl e \<Rightarrow> Inl e
      | Inr t \<Rightarrow> Inr (trim t))"

text \<open>
  The connection handler: lines 50 to 52. The new socket's data is the empty object.
\<close>

definition connection :: "string \<Rightarrow> server \<Rightarrow> outcome" where
  "connection sid s =
     (let users = onlineUsers s @ [\<lparr>socketId = sid, userId = []\<rparr>]
      in (None,
          [Io_emit_usersOnline users, Console_log_connected sid (length users)],
          s\<lparr>onlineUsers := users,
            sockets := (sockets s)(sid \<mapsto> \<lparr>data_room = None, data_userId = None\<rparr>)\<rparr>))"

text \<open>
  \<^verbatim>\<open>userPayload.uid ?? userPayload.userId ?? userPayload.id ?? ""\<close> (line 69).
\<close>

definition announced :: "jsval \<Rightarrow> error + jsval" where
  "announced userPayload =
     (case get_prop userPayload ''uid'' of
        Inl e \<Rightarrow> Inl e
      | Inr a \<Rightarrow>
          if \<not> nullish a then Inr a
          else (case get_prop userPayload ''userId'' of
                  Inl e \<Rightarrow> Inl e
                | Inr b \<Rightarrow>
                    if \<not> nullish b then Inr b
                    else (case get_prop userPayload ''id'' of
                            Inl e \<Rightarrow> Inl e
                          | Inr c \<Rightarrow> Inr (coalesce c (JStr [])))))"

text \<open>
  Lines 69 and 70, the branch of \<^verbatim>\<open>joinRoom\<close> for an object:
  \<^verbatim>\<open>uid = String(...); if (!uid && name) uid = name;\<close>. The module declares no \<^verbatim>\<open>name\<close>,
  nothing it imports does, and Node.js has no global of that name: when \<^verbatim>\<open>uid\<close> is empty
  the right operand of \<^verbatim>\<open>&&\<close> is evaluated and raises ReferenceError; when it is not,
  \<^verbatim>\<open>name\<close> is not evaluated.
\<close>

definition uid_of_object :: "jsval \<Rightarrow> error + string" where
  "uid_of_object userPayload =
     (case announced userPayload of
        Inl e \<Rightarrow> Inl e
      | Inr v \<Rightarrow>
          (case ToString v of
             Inl e \<Rightarrow> Inl e
           | Inr uid \<Rightarrow> if uid = [] then Inl ReferenceError else Inr uid))"

text \<open>
  Lines 62 to 74 of \<^verbatim>\<open>joinRoom\<close>: the user id for the socket \<open>sid\<close>. The branches are
  those of the source: a falsy payload; \<^verbatim>\<open>typeof userPayload === "string"\<close>;
  \<^verbatim>\<open>typeof userPayload === "object" && userPayload !== null\<close>, which holds of arrays too;
  \<^verbatim>\<open>String(userPayload)\<close> for any other value. Line 74 replaces an empty result by the
  socket id.
\<close>

definition resolve_uid :: "string \<Rightarrow> jsval \<Rightarrow> error + string" where
  "resolve_uid sid userPayload =
     (case
        (if \<not> truthy userPayload then Inr sid
         else
           (case userPayload of
              JStr str \<Rightarrow> Inr str
            | JArr _ \<Rightarrow> uid_of_object userPayload
            | JObj _ \<Rightarrow> uid_of_object userPayload
            | _ \<Rightarrow> ToString userPayload))
      of
        Inl e \<Rightarrow> Inl e
      | Inr uid \<Rightarrow> Inr (if uid = [] then sid else uid))"

text \<open>The \<^verbatim>\<open>joinRoom\<close> handler of the socket \<open>sid\<close>, whose data is \<open>d\<close>: lines 55 to 90.\<close>

definition joinRoom :: "string \<Rightarrow> socket_data \<Rightarrow> jsval \<Rightarrow> jsval \<Rightarrow> server \<Rightarrow> outcome" where
  "joinRoom sid d roomRaw userPayload s =
     (case normalize_room roomRaw of
        Inl e \<Rightarrow> (Some e, [], s)
      | Inr room \<Rightarrow>
          if room = [] then (None, [], s)
          else
            (let d1 = d\<lparr>data_room := Some room\<rparr>;
                 s1 = s\<lparr>sockets := (sockets s)(sid \<mapsto> d1)\<rparr>
             in case resolve_uid sid userPayload of
                  Inl e \<Rightarrow> (Some e, [Socket_join sid room], s1)
                | Inr uid \<Rightarrow>
                    (case room_members (roomUsers s1) room of
                       Inl e \<Rightarrow> (Some e, [Socket_join sid room], s1)
                     | Inr users \<Rightarrow>
                         (let entry = \<lparr>socketId = sid, userId = uid\<rparr>;
                              users' =
                                (case findIndex (\<lambda>u. socketId u = sid) users of
                                   Some existingIdx \<Rightarrow> users[existingIdx := entry]
                                 | None \<Rightarrow> users @ [entry])
                          in (None,
                              [Socket_join sid room, Io_to_usersOnline room users'],
                              s1\<lparr>roomUsers := (roomUsers s1)(room \<mapsto> users'),
                                 sockets := (sockets s1)(sid \<mapsto> d1\<lparr>data_userId := Some uid\<rparr>)\<rparr>)))))"

text \<open>The \<^verbatim>\<open>leaveRoom\<close> handler: lines 93 to 104.\<close>

definition leaveRoom :: "string \<Rightarrow> socket_data \<Rightarrow> jsval \<Rightarrow> server \<Rightarrow> outcome" where
  "leaveRoom sid d roomRaw s =
     (case normalize_room roomRaw of
        Inl e \<Rightarrow> (Some e, [], s)
      | Inr room \<Rightarrow>
          if room = [] then (None, [], s)
          else
            (case room_members (roomUsers s) room of
               Inl e \<Rightarrow> (Some e, [Socket_leave sid room], s)
             | Inr users \<Rightarrow>
                 (let users' = filter (\<lambda>u. socketId u \<noteq> sid) users
                  in (None,
                      [Socket_leave sid room, Io_to_usersOnline room users'],
                      s\<lparr>roomUsers := (roomUsers s)(room \<mapsto> users'),
                        sockets := (sockets s)(sid \<mapsto> d\<lparr>data_room := None, data_userId := None\<rparr>)\<rparr>))))"

text \<open>\<^verbatim>\<open>(payload?.message ?? "").toString().trim()\<close> (line 108).\<close>

definition trimmed_message :: "jsval \<Rightarrow> error + string" where
  "trimmed_message payload =
     (case ToString (coalesce (opt_prop payload ''message'') (JStr [])) of
        Inl e \<Rightarrow> Inl e
      | Inr t \<Rightarrow> Inr (trim t))"

text \<open>
  The \<^verbatim>\<open>chat:message\<close> handler: lines 107 to 131. \<open>now\<close> is what
  \<^verbatim>\<open>new Date().toISOString()\<close> gives when the handler runs. The room is not converted to a
  string: \<^verbatim>\<open>roomUsers[room]\<close> converts it to a property key, and \<^verbatim>\<open>io.to\<close> receives the
  value as it is. Once line 112 has read \<^verbatim>\<open>payload.room\<close> without raising, \<^verbatim>\<open>payload\<close> is
  neither \<^verbatim>\<open>undefined\<close> nor \<^verbatim>\<open>null\<close>, and the reads of lines 123 to 126 give what
  \<open>opt_prop\<close> gives.
\<close>

definition chat_message :: "string \<Rightarrow> socket_data \<Rightarrow> string \<Rightarrow> jsval \<Rightarrow> server \<Rightarrow> outcome" where
  "chat_message sid d now payload s =
     (case trimmed_message payload of
        Inl e \<Rightarrow> (Some e, [], s)
      | Inr trimmedMessage \<Rightarrow>
          if trimmedMessage = [] then (None, [], s)
          else
            (case get_prop payload ''room'' of
               Inl e \<Rightarrow> (Some e, [], s)
             | Inr payload_room \<Rightarrow>
                 (let stored = (case data_room d of None \<Rightarrow> JUndefined | Some r \<Rightarrow> JStr r);
                      room = coalesce (coalesce payload_room stored) JNull
                  in if \<not> truthy room
                     then (None, [Console_warn ''chat:message received without room, ignoring''], s)
                     else
                       (case ToString room of
                          Inl e \<Rightarrow> (Some e, [], s)
                        | Inr key \<Rightarrow>
                            (case room_members (roomUsers s) key of
                               Inl e \<Rightarrow> (Some e, [], s)
                             | Inr users \<Rightarrow>
                                 (let sender = find (\<lambda>user. socketId user = sid) users;
                                      sender_userId =
                                        (case sender of
                                           None \<Rightarrow> JUndefined
                                         | Some user \<Rightarrow> JStr (userId user));
                                      outgoingMessage =
                                        JObj
                                          [(''userId'',
                                            coalesce (opt_prop payload ''userId'')
                                              (coalesce sender_userId (JStr sid))),
                                           (''message'', JStr trimmedMessage),
                                           (''timestamp'',
                                            coalesce (opt_prop payload ''timestamp'') (JStr now)),
                                           (''clientId'',
                                            coalesce (opt_prop payload ''clientId'') JUndefined)]
                                  in (None, [Io_to_chat_message room outgoingMessage], s)))))))"

text \<open>The \<^verbatim>\<open>disconnect\<close> handler: lines 134 to 148.\<close>

definition disconnect :: "string \<Rightarrow> socket_data \<Rightarrow> server \<Rightarrow> outcome" where
  "disconnect sid d s =
     (let s1 = s\<lparr>onlineUsers := filter (\<lambda>user. socketId user \<noteq> sid) (onlineUsers s)\<rparr>
      in case data_room d of
           None \<Rightarrow> (None, [Io_emit_usersOnline (onlineUsers s1)], s1)
         | Some room \<Rightarrow>
             if room = [] then (None, [Io_emit_usersOnline (onlineUsers s1)], s1)
             else
               (case room_members (roomUsers s1) room of
                  Inl e \<Rightarrow> (Some e, [], s1)
                | Inr users \<Rightarrow>
                    (let users' = filter (\<lambda>u. socketId u \<noteq> sid) users
                     in (None,
                         [Io_to_usersOnline room users', Io_emit_usersOnline (onlineUsers s1)],
                         s1\<lparr>roomUsers := (roomUsers s1)(room \<mapsto> users')\<rparr>))))"

section \<open>Events\<close>

text \<open>
  The transport calls the connection handler once for each new socket, with a socket id
  no connected socket has, and delivers \<^verbatim>\<open>joinRoom\<close>, \<^verbatim>\<open>leaveRoom\<close>, \<^verbatim>\<open>chat:message\<close> and
  \<^verbatim>\<open>disconnect\<close> to the handlers of a connected socket only; after \<^verbatim>\<open>disconnect\<close> the
  socket is gone. An event that the transport cannot deliver changes nothing.
  \<open>ChatMessage\<close> carries the clock reading.
\<close>

datatype event =
    Connection string
  | JoinRoom string jsval jsval
  | LeaveRoom string jsval
  | ChatMessage string string jsval
  | Disconnect string

fun step :: "event \<Rightarrow> server \<Rightarrow> outcome" where
  "step (Connection sid) s =
     (case sockets s sid of None \<Rightarrow> connection sid s | Some _ \<Rightarrow> (None, [], s))"
| "step (JoinRoom sid roomRaw userPayload) s =
     (case sockets s sid of
        None \<Rightarrow> (None, [], s)
      | Some d \<Rightarrow> joinRoom sid d roomRaw userPayload s)"
| "step (LeaveRoom sid roomRaw) s =
     (case sockets s sid of None \<Rightarrow> (None, [], s) | Some d \<Rightarrow> leaveRoom sid d roomRaw s)"
| "step (ChatMessage sid now payload) s =
     (case sockets s sid of
        None \<Rightarrow> (None, [], s)
      | Some d \<Rightarrow> chat_message sid d now payload s)"
| "step (Disconnect sid) s =
     (case sockets s sid of
        None \<Rightarrow> (None, [], s)
      | Some d \<Rightarrow>
          (case disconnect sid d s of
             (r, fx, s') \<Rightarrow> (r, fx, s'\<lparr>sockets := (sockets s')(sid := None)\<rparr>)))"

text \<open>
  Events are handled one after the other. Nothing in the module catches an error that a
  handler raises: the run ends there, with the state the handler left.
\<close>

fun run :: "event list \<Rightarrow> server \<Rightarrow> outcome" where
  "run [] s = (None, [], s)"
| "run (e # es) s =
     (case step e s of
        (Some err, fx, s') \<Rightarrow> (Some err, fx, s')
      | (None, fx, s') \<Rightarrow>
          (case run es s' of (r, fx', s'') \<Rightarrow> (r, fx @ fx', s'')))"

section \<open>Invariants and example runs\<close>

text \<open>No room lists a socket id twice.\<close>

definition rooms_unique :: "server \<Rightarrow> bool" where
  "rooms_unique s = (\<forall>room users. roomUsers s room = Some users \<longrightarrow> distinct (map socketId users))"

text \<open>
  A socket whose data names a room is listed in that room; the global list holds each
  connected socket once and no other socket; and all three together.
\<close>

definition assigned_listed :: "server \<Rightarrow> bool" where
  "assigned_listed s =
     (\<forall>sid d room. sockets s sid = Some d \<longrightarrow> data_room d = Some room \<longrightarrow>
        room \<noteq> [] \<and> (\<exists>users. roomUsers s room = Some users \<and> sid \<in> socketId ` set users))"

definition online_connected :: "server \<Rightarrow> bool" where
  "online_connected s =
     (distinct (map socketId (onlineUsers s)) \<and> socketId ` set (onlineUsers s) = dom (sockets s))"

definition consistent :: "server \<Rightarrow> bool" where
  "consistent s = (rooms_unique s \<and> assigned_listed s \<and> online_connected s)"

text \<open>
  Two sockets connect and join the room \<^verbatim>\<open>lobby\<close>, the first as the string \<^verbatim>\<open>alice\<close>, the
  second with the object \<^verbatim>\<open>{uid: "bob"}\<close>.
\<close>

definition two_in_lobby :: "event list" where
  "two_in_lobby =
     [Connection ''c1'', Connection ''c2'',
      JoinRoom ''c1'' (JStr ''lobby'') (JStr ''alice''),
      JoinRoom ''c2'' (JStr '' lobby '') (JObj [(''uid'', JStr ''bob'')])]"

text \<open>After them a third socket connects and joins no room.\<close>

definition lobby_and_visitor :: "event list" where
  "lobby_and_visitor = two_in_lobby @ [Connection ''c3'']"

section \<open>Evaluation and the shape of the handlers' results\<close>

lemmas eval =
  connection_def joinRoom_def leaveRoom_def chat_message_def disconnect_def
  normalize_room_def trimmed_message_def coalesce_def opt_prop_def trim_def white_def
  resolve_uid_def uid_of_object_def announced_def room_members_def Object_prototype_names_def Let_def

lemma findIndex_None: "findIndex P xs = None \<longleftrightarrow> (\<forall>x\<in>set xs. \<not> P x)"
  by (induction xs) auto

lemma findIndex_Some:
  "findIndex P xs = Some i \<Longrightarrow> i < length xs \<and> P (xs ! i)"
  by (induction xs arbitrary: i) (auto split: if_splits)

lemma findIndex_distinct:
  "distinct (map f xs) \<Longrightarrow> i < length xs \<Longrightarrow> findIndex (\<lambda>u. f u = f (xs ! i)) xs = Some i"
proof (induction xs arbitrary: i)
  case Nil
  then show ?case by simp
next
  case (Cons x xs)
  show ?case
  proof (cases i)
    case 0
    then show ?thesis by simp
  next
    case (Suc j)
    with Cons.prems have j: "j < length xs" and d: "distinct (map f xs)" and nx: "f x \<notin> f ` set xs"
      by auto
    from j nx have "f x \<noteq> f (xs ! j)" by (metis imageI nth_mem)
    with Cons.IH [OF d j] Suc show ?thesis by simp
  qed
qed

lemma map_socketId_replace:
  assumes "findIndex (\<lambda>u. socketId u = sid) users = Some i"
  shows "map socketId (users[i := \<lparr>socketId = sid, userId = uid\<rparr>]) = map socketId users"
proof -
  from findIndex_Some [OF assms] have "i < length users" and "socketId (users ! i) = sid"
    by auto
  then show ?thesis by (simp add: map_update list_update_same_conv)
qed

lemma joinRoom_result:
  assumes "joinRoom sid d roomRaw userPayload s = (r, fx, s')"
  obtains
    (bad_room) e where "normalize_room roomRaw = Inl e" "r = Some e" "fx = []" "s' = s"
  | (ignored) "normalize_room roomRaw = Inr []" "r = None" "fx = []" "s' = s"
  | (bad_uid) room e where "normalize_room roomRaw = Inr room" "room \<noteq> []"
      "resolve_uid sid userPayload = Inl e" "r = Some e" "fx = [Socket_join sid room]"
      "s' = s\<lparr>sockets := (sockets s)(sid \<mapsto> d\<lparr>data_room := Some room\<rparr>)\<rparr>"
  | (bad_members) room uid e where "normalize_room roomRaw = Inr room" "room \<noteq> []"
      "resolve_uid sid userPayload = Inr uid" "room_members (roomUsers s) room = Inl e"
      "r = Some e" "fx = [Socket_join sid room]"
      "s' = s\<lparr>sockets := (sockets s)(sid \<mapsto> d\<lparr>data_room := Some room\<rparr>)\<rparr>"
  | (replaced) room uid users i where "normalize_room roomRaw = Inr room" "room \<noteq> []"
      "resolve_uid sid userPayload = Inr uid" "room_members (roomUsers s) room = Inr users"
      "findIndex (\<lambda>u. socketId u = sid) users = Some i" "r = None"
      "fx = [Socket_join sid room,
             Io_to_usersOnline room (users[i := \<lparr>socketId = sid, userId = uid\<rparr>])]"
      "s' = s\<lparr>roomUsers := (roomUsers s)(room \<mapsto> users[i := \<lparr>socketId = sid, userId = uid\<rparr>]),
              sockets := (sockets s)(sid \<mapsto> d\<lparr>data_room := Some room, data_userId := Some uid\<rparr>)\<rparr>"
  | (appended) room uid users where "normalize_room roomRaw = Inr room" "room \<noteq> []"
      "resolve_uid sid userPayload = Inr uid" "room_members (roomUsers s) room = Inr users"
      "findIndex (\<lambda>u. socketId u = sid) users = None" "r = None"
      "fx = [Socket_join sid room,
             Io_to_usersOnline room (users @ [\<lparr>socketId = sid, userId = uid\<rparr>])]"
      "s' = s\<lparr>roomUsers := (roomUsers s)(room \<mapsto> users @ [\<lparr>socketId = sid, userId = uid\<rparr>]),
              sockets := (sockets s)(sid \<mapsto> d\<lparr>data_room := Some room, data_userId := Some uid\<rparr>)\<rparr>"
proof (cases "normalize_room roomRaw")
  case (Inl e)
  with assms have "r = Some e \<and> fx = [] \<and> s' = s" by (simp add: joinRoom_def)
  with Inl bad_room show ?thesis by simp
next
  case room: (Inr room)
  show ?thesis
  proof (cases "room = []")
    case True
    with room assms have "r = None \<and> fx = [] \<and> s' = s" by (simp add: joinRoom_def)
    with room True ignored show ?thesis by simp
  next
    case ne: False
    show ?thesis
    proof (cases "resolve_uid sid userPayload")
      case (Inl e)
      with room ne assms
      have "r = Some e \<and> fx = [Socket_join sid room] \<and>
            s' = s\<lparr>sockets := (sockets s)(sid \<mapsto> d\<lparr>data_room := Some room\<rparr>)\<rparr>"
        by (simp add: joinRoom_def Let_def)
      with room ne Inl bad_uid show ?thesis by simp
    next
      case uid: (Inr uid)
      show ?thesis
      proof (cases "room_members (roomUsers s) room")
        case (Inl e)
        with room ne uid assms
        have "r = Some e \<and> fx = [Socket_join sid room] \<and>
              s' = s\<lparr>sockets := (sockets s)(sid \<mapsto> d\<lparr>data_room := Some room\<rparr>)\<rparr>"
          by (simp add: joinRoom_def Let_def)
        with room ne uid Inl bad_members show ?thesis by simp
      next
        case users: (Inr users)
        show ?thesis
        proof (cases "findIndex (\<lambda>u. socketId u = sid) users")
          case None
          with room ne uid users assms
          have "r = None \<and>
            fx = [Socket_join sid room,
                  Io_to_usersOnline room (users @ [\<lparr>socketId = sid, userId = uid\<rparr>])] \<and>
            s' = s\<lparr>roomUsers := (roomUsers s)(room \<mapsto> users @ [\<lparr>socketId = sid, userId = uid\<rparr>]),
                   sockets := (sockets s)(sid \<mapsto> d\<lparr>data_room := Some room, data_userId := Some uid\<rparr>)\<rparr>"
            by (simp add: joinRoom_def Let_def)
          with room ne uid users None appended show ?thesis by simp
        next
          case (Some i)
          with room ne uid users assms
          have "r = None \<and>
            fx = [Socket_join sid room,
                  Io_to_usersOnline room (users[i := \<lparr>socketId = sid, userId = uid\<rparr>])] \<and>
            s' = s\<lparr>roomUsers := (roomUsers s)(room \<mapsto> users[i := \<lparr>socketId = sid, userId = uid\<rparr>]),
                   sockets := (sockets s)(sid \<mapsto> d\<lparr>data_room := Some room, data_userId := Some uid\<rparr>)\<rparr>"
            by (simp add: joinRoom_def Let_def)
          with room ne uid users Some replaced show ?thesis by simp
        qed
      qed
    qed
  qed
qed

lemma leaveRoom_result:
  assumes "leaveRoom sid d roomRaw s = (r, fx, s')"
  obtains
    (bad_room) e where "normalize_room roomRaw = Inl e" "r = Some e" "fx = []" "s' = s"
  | (ignored) "normalize_room roomRaw = Inr []" "r = None" "fx = []" "s' = s"
  | (bad_members) room e where "normalize_room roomRaw = Inr room" "room \<noteq> []"
      "room_members (roomUsers s) room = Inl e" "r = Some e" "fx = [Socket_leave sid room]"
      "s' = s"
  | (left) room users where "normalize_room roomRaw = Inr room" "room \<noteq> []"
      "room_members (roomUsers s) room = Inr users" "r = None"
      "fx = [Socket_leave sid room,
             Io_to_usersOnline room (filter (\<lambda>u. socketId u \<noteq> sid) users)]"
      "s' = s\<lparr>roomUsers := (roomUsers s)(room \<mapsto> filter (\<lambda>u. socketId u \<noteq> sid) users),
              sockets := (sockets s)(sid \<mapsto> d\<lparr>data_room := None, data_userId := None\<rparr>)\<rparr>"
proof (cases "normalize_room roomRaw")
  case (Inl e)
  with assms have "r = Some e \<and> fx = [] \<and> s' = s" by (simp add: leaveRoom_def)
  with Inl bad_room show ?thesis by simp
next
  case room: (Inr room)
  show ?thesis
  proof (cases "room = []")
    case True
    with room assms have "r = None \<and> fx = [] \<and> s' = s" by (simp add: leaveRoom_def)
    with room True ignored show ?thesis by simp
  next
    case ne: False
    show ?thesis
    proof (cases "room_members (roomUsers s) room")
      case (Inl e)
      with room ne assms have "r = Some e \<and> fx = [Socket_leave sid room] \<and> s' = s"
        by (simp add: leaveRoom_def)
      with room ne Inl bad_members show ?thesis by simp
    next
      case users: (Inr users)
      with room ne assms
      have "r = None \<and>
        fx = [Socket_leave sid room,
              Io_to_usersOnline room (filter (\<lambda>u. socketId u \<noteq> sid) users)] \<and>
        s' = s\<lparr>roomUsers := (roomUsers s)(room \<mapsto> filter (\<lambda>u. socketId u \<noteq> sid) users),
               sockets := (sockets s)(sid \<mapsto> d\<lparr>data_room := None, data_userId := None\<rparr>)\<rparr>"
        by (simp add: leaveRoom_def Let_def)
      with room ne users left show ?thesis by simp
    qed
  qed
qed

lemma disconnect_result:
  assumes "disconnect sid d s = (r, fx, s')"
  obtains
    (unassigned) "data_room d = None \<or> data_room d = Some []" "r = None"
      "fx = [Io_emit_usersOnline (filter (\<lambda>user. socketId user \<noteq> sid) (onlineUsers s))]"
      "s' = s\<lparr>onlineUsers := filter (\<lambda>user. socketId user \<noteq> sid) (onlineUsers s)\<rparr>"
  | (bad_members) room e where "data_room d = Some room" "room \<noteq> []"
      "room_members (roomUsers s) room = Inl e" "r = Some e" "fx = []"
      "s' = s\<lparr>onlineUsers := filter (\<lambda>user. socketId user \<noteq> sid) (onlineUsers s)\<rparr>"
  | (assigned) room users where "data_room d = Some room" "room \<noteq> []"
      "room_members (roomUsers s) room = Inr users" "r = None"
      "fx = [Io_to_usersOnline room (filter (\<lambda>u. socketId u \<noteq> sid) users),
             Io_emit_usersOnline (filter (\<lambda>user. socketId user \<noteq> sid) (onlineUsers s))]"
      "s' = s\<lparr>onlineUsers := filter (\<lambda>user. socketId user \<noteq> sid) (onlineUsers s),
              roomUsers := (roomUsers s)(room \<mapsto> filter (\<lambda>u. socketId u \<noteq> sid) users)\<rparr>"
proof (cases "data_room d = None \<or> data_room d = Some []")
  case True
  with assms
  have "r = None \<and>
    fx = [Io_emit_usersOnline (filter (\<lambda>user. socketId user \<noteq> sid) (onlineUsers s))] \<and>
    s' = s\<lparr>onlineUsers := filter (\<lambda>user. socketId user \<noteq> sid) (onlineUsers s)\<rparr>"
    by (auto simp: disconnect_def Let_def)
  with True unassigned show ?thesis by simp
next
  case False
  then obtain room where room: "data_room d = Some room" and ne: "room \<noteq> []" by auto
  show ?thesis
  proof (cases "room_members (roomUsers s) room")
    case (Inl e)
    with room ne assms
    have "r = Some e \<and> fx = [] \<and>
      s' = s\<lparr>onlineUsers := filter (\<lambda>user. socketId user \<noteq> sid) (onlineUsers s)\<rparr>"
      by (simp add: disconnect_def Let_def)
    with room ne Inl bad_members show ?thesis by simp
  next
    case users: (Inr users)
    with room ne assms
    have "r = None \<and>
      fx = [Io_to_usersOnline room (filter (\<lambda>u. socketId u \<noteq> sid) users),
            Io_emit_usersOnline (filter (\<lambda>user. socketId user \<noteq> sid) (onlineUsers s))] \<and>
      s' = s\<lparr>onlineUsers := filter (\<lambda>user. socketId user \<noteq> sid) (onlineUsers s),
             roomUsers := (roomUsers s)(room \<mapsto> filter (\<lambda>u. socketId u \<noteq> sid) users)\<rparr>"
      by (simp add: disconnect_def Let_def)
    with room ne users assigned show ?thesis by simp
  qed
qed

lemma chat_message_state: "chat_message sid d now payload s = (r, fx, s') \<Longrightarrow> s' = s"
  by (auto simp: chat_message_def Let_def split: sum.splits if_splits)

lemma room_members_distinct:
  "rooms_unique s \<Longrightarrow> room_members (roomUsers s) room = Inr users \<Longrightarrow> distinct (map socketId users)"
  by (auto simp: rooms_unique_def room_members_def split: option.splits if_splits)

lemma rooms_unique_update:
  "rooms_unique s \<Longrightarrow> distinct (map socketId users) \<Longrightarrow> roomUsers s' = (roomUsers s)(room \<mapsto> users)
     \<Longrightarrow> rooms_unique s'"
  by (auto simp: rooms_unique_def)

lemma joinRoom_unique:
  assumes "rooms_unique s" and "joinRoom sid d roomRaw userPayload s = (r, fx, s')"
  shows "rooms_unique s'"
  using assms(2)
proof (cases rule: joinRoom_result)
  case (replaced room uid users i)
  from room_members_distinct [OF assms(1) replaced(4)] map_socketId_replace [OF replaced(5)]
  have "distinct (map socketId (users[i := \<lparr>socketId = sid, userId = uid\<rparr>]))" by simp
  with assms(1) show ?thesis by (rule rooms_unique_update) (simp add: replaced)
next
  case (appended room uid users)
  from appended(5) have "sid \<notin> socketId ` set users" by (auto simp: findIndex_None)
  with room_members_distinct [OF assms(1) appended(4)]
  have "distinct (map socketId (users @ [\<lparr>socketId = sid, userId = uid\<rparr>]))" by simp
  with assms(1) show ?thesis by (rule rooms_unique_update) (simp add: appended)
qed (use assms(1) in \<open>simp_all add: rooms_unique_def\<close>)

lemma leaveRoom_unique:
  assumes "rooms_unique s" and "leaveRoom sid d roomRaw s = (r, fx, s')"
  shows "rooms_unique s'"
  using assms(2)
proof (cases rule: leaveRoom_result)
  case (left room users)
  from room_members_distinct [OF assms(1) left(3)]
  have "distinct (map socketId (filter (\<lambda>u. socketId u \<noteq> sid) users))"
    by (simp add: distinct_map_filter)
  with assms(1) show ?thesis by (rule rooms_unique_update) (simp add: left)
qed (use assms(1) in \<open>simp_all add: rooms_unique_def\<close>)

lemma disconnect_unique:
  assumes "rooms_unique s" and "disconnect sid d s = (r, fx, s')"
  shows "rooms_unique s'"
  using assms(2)
proof (cases rule: disconnect_result)
  case (assigned room users)
  from room_members_distinct [OF assms(1) assigned(3)]
  have "distinct (map socketId (filter (\<lambda>u. socketId u \<noteq> sid) users))"
    by (simp add: distinct_map_filter)
  with assms(1) show ?thesis by (rule rooms_unique_update) (simp add: assigned)
qed (use assms(1) in \<open>simp_all add: rooms_unique_def\<close>)

lemma step_unique:
  assumes "rooms_unique s" and "step e s = (r, fx, s')"
  shows "rooms_unique s'"
proof (cases e)
  case (Connection sid)
  with assms show ?thesis
    by (auto simp: connection_def Let_def rooms_unique_def split: option.splits)
next
  case (JoinRoom sid roomRaw userPayload)
  with assms joinRoom_unique show ?thesis by (auto split: option.splits)
next
  case (LeaveRoom sid roomRaw)
  with assms leaveRoom_unique show ?thesis by (auto split: option.splits)
next
  case (ChatMessage sid now payload)
  with assms show ?thesis by (auto split: option.splits dest: chat_message_state)
next
  case (Disconnect sid)
  show ?thesis
  proof (cases "sockets s sid")
    case None
    with Disconnect assms show ?thesis by simp
  next
    case (Some d)
    obtain r0 fx0 s0 where d0: "disconnect sid d s = (r0, fx0, s0)" by (cases "disconnect sid d s")
    with Some Disconnect assms(2) have "roomUsers s' = roomUsers s0" by auto
    with disconnect_unique [OF assms(1) d0] show ?thesis by (simp add: rooms_unique_def)
  qed
qed

lemma run_unique:
  "rooms_unique s \<Longrightarrow> run es s = (r, fx, s') \<Longrightarrow> rooms_unique s'"
proof (induction es arbitrary: s r fx s')
  case Nil
  then show ?case by simp
next
  case (Cons e es)
  obtain r1 fx1 s1 where st: "step e s = (r1, fx1, s1)" by (cases "step e s")
  from step_unique [OF Cons.prems(1) st] have u1: "rooms_unique s1" .
  show ?case
  proof (cases r1)
    case None
    obtain r2 fx2 s2 where rn: "run es s1 = (r2, fx2, s2)" by (cases "run es s1")
    with st None Cons.prems(2) have "s' = s2" by simp
    with Cons.IH [OF u1 rn] show ?thesis by simp
  next
    case (Some err)
    with st Cons.prems(2) have "s' = s1" by simp
    with u1 show ?thesis by simp
  qed
qed


lemma init_unique: "rooms_unique init"
  by (simp add: rooms_unique_def init_def)

lemma rejoin_in_place:
  assumes u: "rooms_unique s"
    and sock: "sockets s sid = Some d"
    and room: "normalize_room roomRaw = Inr room" "room \<noteq> []"
    and uid: "resolve_uid sid userPayload = Inr uid"
    and users: "roomUsers s room = Some users"
    and i: "i < length users" "socketId (users ! i) = sid"
  shows "step (JoinRoom sid roomRaw userPayload) s =
      (None,
       [Socket_join sid room,
        Io_to_usersOnline room (users[i := \<lparr>socketId = sid, userId = uid\<rparr>])],
       s\<lparr>roomUsers := (roomUsers s)(room \<mapsto> users[i := \<lparr>socketId = sid, userId = uid\<rparr>]),
         sockets := (sockets s)(sid \<mapsto> d\<lparr>data_room := Some room, data_userId := Some uid\<rparr>)\<rparr>)"
proof -
  from u users have "distinct (map socketId users)" by (simp add: rooms_unique_def)
  from findIndex_distinct [OF this i(1)] i(2)
  have "findIndex (\<lambda>u. socketId u = sid) users = Some i" by simp
  moreover from users have "room_members (roomUsers s) room = Inr users"
    by (simp add: room_members_def)
  ultimately show ?thesis
    using sock room uid by (simp add: joinRoom_def Let_def)
qed

subsection \<open>Reading the payload of a chat message\<close>

text \<open>Only an object has a message that is not empty.\<close>

lemma trimmed_message_object:
  assumes "trimmed_message payload = Inr t" and "t \<noteq> []"
  shows "\<exists>ps. payload = JObj ps"
  using assms
  by (cases payload) (auto simp: trimmed_message_def opt_prop_def coalesce_def trim_def)

text \<open>
  A value one property of which was read without raising gives, for any other property,
  what the optional read gives: this is why the handler's reads of \<^verbatim>\<open>payload.userId\<close>,
  \<^verbatim>\<open>payload.timestamp\<close> and \<^verbatim>\<open>payload.clientId\<close> are written with \<open>opt_prop\<close>.
\<close>

lemma get_prop_after_read:
  "get_prop payload k = Inr v \<Longrightarrow> get_prop payload k' = Inr (opt_prop payload k')"
  by (cases payload) (simp_all add: opt_prop_def)

subsection \<open>The example runs, evaluated\<close>

lemma two_in_lobby_rooms:
  "roomUsers (snd (snd (run two_in_lobby init))) ''lobby'' =
     Some [\<lparr>socketId = ''c1'', userId = ''alice''\<rparr>, \<lparr>socketId = ''c2'', userId = ''bob''\<rparr>]"
  by (simp add: two_in_lobby_def init_def eval)

lemma two_in_lobby_sockets:
  "sockets (snd (snd (run two_in_lobby init))) ''c1'' =
     Some \<lparr>data_room = Some ''lobby'', data_userId = Some ''alice''\<rparr>"
  by (simp add: two_in_lobby_def init_def eval)

lemma two_in_lobby_run:
  "run two_in_lobby init =
     (None,
      [Io_emit_usersOnline [\<lparr>socketId = ''c1'', userId = []\<rparr>],
       Console_log_connected ''c1'' 1,
       Io_emit_usersOnline [\<lparr>socketId = ''c1'', userId = []\<rparr>, \<lparr>socketId = ''c2'', userId = []\<rparr>],
       Console_log_connected ''c2'' 2,
       Socket_join ''c1'' ''lobby'',
       Io_to_usersOnline ''lobby'' [\<lparr>socketId = ''c1'', userId = ''alice''\<rparr>],
       Socket_join ''c2'' ''lobby'',
       Io_to_usersOnline ''lobby''
         [\<lparr>socketId = ''c1'', userId = ''alice''\<rparr>, \<lparr>socketId = ''c2'', userId = ''bob''\<rparr>]],
      snd (snd (run two_in_lobby init)))"
  by (simp add: two_in_lobby_def init_def eval)

lemma two_in_lobby_online:
  "onlineUsers (snd (snd (run two_in_lobby init))) =
     [\<lparr>socketId = ''c1'', userId = []\<rparr>, \<lparr>socketId = ''c2'', userId = []\<rparr>]"
  by (simp add: two_in_lobby_def init_def eval)

lemma lobby_and_visitor_rooms:
  "roomUsers (snd (snd (run lobby_and_visitor init))) ''lobby'' =
     Some [\<lparr>socketId = ''c1'', userId = ''alice''\<rparr>, \<lparr>socketId = ''c2'', userId = ''bob''\<rparr>]"
  by (simp add: lobby_and_visitor_def two_in_lobby_def init_def eval)

lemma lobby_and_visitor_sockets:
  "sockets (snd (snd (run lobby_and_visitor init))) ''c3'' =
     Some \<lparr>data_room = None, data_userId = None\<rparr>"
  by (simp add: lobby_and_visitor_def two_in_lobby_def init_def eval)

section \<open>What holds of the server as long as no handler has raised\<close>

lemma room_members_stored:
  "roomUsers s room = Some users \<Longrightarrow> room_members (roomUsers s) room = Inr users"
  by (simp add: room_members_def)

lemma count_one:
  "distinct (map f xs) \<Longrightarrow> a \<in> f ` set xs \<Longrightarrow> length (filter (\<lambda>x. f x = a) xs) = 1"
proof (induction xs)
  case Nil
  then show ?case by simp
next
  case (Cons x xs)
  show ?case
  proof (cases "f x = a")
    case True
    with Cons.prems have "a \<notin> f ` set xs" by simp
    then have "\<forall>y\<in>set xs. f y \<noteq> a" by blast
    then have "filter (\<lambda>x. f x = a) xs = []" by (simp add: filter_empty_conv)
    with True show ?thesis by simp
  next
    case False
    with Cons show ?thesis by auto
  qed
qed

lemma assigned_listedI:
  assumes "\<And>sid d room. sockets s sid = Some d \<Longrightarrow> data_room d = Some room \<Longrightarrow>
     room \<noteq> [] \<and> (\<exists>users. roomUsers s room = Some users \<and> sid \<in> socketId ` set users)"
  shows "assigned_listed s"
  using assms unfolding assigned_listed_def by blast

lemma assigned_listedD:
  assumes "assigned_listed s" "sockets s sid = Some d" "data_room d = Some room"
  shows "room \<noteq> []" and "\<exists>users. roomUsers s room = Some users \<and> sid \<in> socketId ` set users"
  using assms unfolding assigned_listed_def by blast+

lemma connection_consistent:
  assumes "consistent s" and "sockets s sid = None" and "connection sid s = (r, fx, s')"
  shows "consistent s'"
proof -
  from assms(3) have s': "s' = s\<lparr>onlineUsers := onlineUsers s @ [\<lparr>socketId = sid, userId = []\<rparr>],
      sockets := (sockets s)(sid \<mapsto> \<lparr>data_room = None, data_userId = None\<rparr>)\<rparr>"
    by (simp add: connection_def Let_def)
  from assms(1) have u: "rooms_unique s" and a: "assigned_listed s" and o: "online_connected s"
    by (simp_all add: consistent_def)
  from u have "rooms_unique s'" by (simp add: s' rooms_unique_def)
  moreover have "assigned_listed s'"
  proof (rule assigned_listedI)
    fix sid' d' room
    assume "sockets s' sid' = Some d'" and dr: "data_room d' = Some room"
    with s' have "sid' \<noteq> sid" and "sockets s sid' = Some d'" by (auto split: if_splits)
    from assigned_listedD [OF a this(2) dr] s'
    show "room \<noteq> [] \<and> (\<exists>users. roomUsers s' room = Some users \<and> sid' \<in> socketId ` set users)"
      by simp
  qed
  moreover from o assms(2) have "online_connected s'"
    by (auto simp: s' online_connected_def)
  ultimately show ?thesis by (simp add: consistent_def)
qed

lemma joinRoom_consistent:
  assumes c: "consistent s" and sock: "sockets s sid = Some d"
    and j: "joinRoom sid d roomRaw userPayload s = (None, fx, s')"
  shows "consistent s'"
proof -
  from c have u: "rooms_unique s" and a: "assigned_listed s" and o: "online_connected s"
    by (simp_all add: consistent_def)
  from joinRoom_unique [OF u j] have u': "rooms_unique s'" .
  have "\<exists>room uid users users'. room \<noteq> [] \<and> room_members (roomUsers s) room = Inr users \<and>
       socketId ` set users \<union> {sid} = socketId ` set users' \<and>
       s' = s\<lparr>roomUsers := (roomUsers s)(room \<mapsto> users'),
              sockets := (sockets s)(sid \<mapsto> d\<lparr>data_room := Some room, data_userId := Some uid\<rparr>)\<rparr>"
    if "s' \<noteq> s"
    using j
  proof (cases rule: joinRoom_result)
    case (replaced room uid users i)
    from map_socketId_replace [OF replaced(5), of uid] findIndex_Some [OF replaced(5)]
    have "socketId ` set users \<union> {sid} = socketId ` set (users[i := \<lparr>socketId = sid, userId = uid\<rparr>])"
      by (metis (no_types, lifting) Un_insert_right insert_absorb list.set_map nth_mem
          rev_image_eqI sup_bot.right_neutral)
    with replaced show ?thesis by blast
  next
    case (appended room uid users)
    have "socketId ` set users \<union> {sid} = socketId ` set (users @ [\<lparr>socketId = sid, userId = uid\<rparr>])"
      by simp
    with appended show ?thesis by blast
  qed (use that in simp_all)
  then consider "s' = s" | room uid users users' where "room \<noteq> []"
    "room_members (roomUsers s) room = Inr users"
    "socketId ` set users \<union> {sid} = socketId ` set users'"
    "s' = s\<lparr>roomUsers := (roomUsers s)(room \<mapsto> users'),
              sockets := (sockets s)(sid \<mapsto> d\<lparr>data_room := Some room, data_userId := Some uid\<rparr>)\<rparr>"
    by blast
  then show ?thesis
  proof cases
    case 1
    with c show ?thesis by simp
  next
    case (2 room uid users users')
    have "assigned_listed s'"
    proof (rule assigned_listedI)
      fix sid' d' room'
      assume s: "sockets s' sid' = Some d'" and dr: "data_room d' = Some room'"
      show "room' \<noteq> [] \<and> (\<exists>us. roomUsers s' room' = Some us \<and> sid' \<in> socketId ` set us)"
      proof (cases "sid' = sid")
        case True
        with s dr 2 show ?thesis by auto
      next
        case False
        with s 2(4) have s0: "sockets s sid' = Some d'" by simp
        from assigned_listedD [OF a s0 dr] obtain us where ne: "room' \<noteq> []"
          and us: "roomUsers s room' = Some us" "sid' \<in> socketId ` set us" by blast
        show ?thesis
        proof (cases "room' = room")
          case True
          with us(1) 2(2) have "us = users" by (simp add: room_members_def)
          with us(2) 2(3) have "sid' \<in> socketId ` set users'" by blast
          with True ne 2(4) show ?thesis by simp
        next
          case False
          with ne us 2(4) show ?thesis by simp
        qed
      qed
    qed
    moreover from o sock have "online_connected s'"
      by (auto simp: 2(4) online_connected_def)
    ultimately show ?thesis using u' by (simp add: consistent_def)
  qed
qed

lemma filter_others:
  "sid' \<noteq> sid \<Longrightarrow> sid' \<in> socketId ` set users \<Longrightarrow>
     sid' \<in> socketId ` set (filter (\<lambda>u. socketId u \<noteq> sid) users)"
  by auto

lemma leaveRoom_consistent:
  assumes c: "consistent s" and sock: "sockets s sid = Some d"
    and l: "leaveRoom sid d roomRaw s = (None, fx, s')"
  shows "consistent s'"
proof -
  from c have u: "rooms_unique s" and a: "assigned_listed s" and o: "online_connected s"
    by (simp_all add: consistent_def)
  from leaveRoom_unique [OF u l] have u': "rooms_unique s'" .
  from l show ?thesis
  proof (cases rule: leaveRoom_result)
    case (left room users)
    have "assigned_listed s'"
    proof (rule assigned_listedI)
      fix sid' d' room'
      assume s: "sockets s' sid' = Some d'" and dr: "data_room d' = Some room'"
      with left(6) have neq: "sid' \<noteq> sid" by (auto split: if_splits)
      with s left(6) have s0: "sockets s sid' = Some d'" by simp
      from assigned_listedD [OF a s0 dr] obtain us where ne: "room' \<noteq> []"
        and us: "roomUsers s room' = Some us" "sid' \<in> socketId ` set us" by blast
      show "room' \<noteq> [] \<and> (\<exists>us. roomUsers s' room' = Some us \<and> sid' \<in> socketId ` set us)"
      proof (cases "room' = room")
        case True
        with us(1) left(3) have "us = users" by (simp add: room_members_def)
        with us(2) neq have "sid' \<in> socketId ` set (filter (\<lambda>u. socketId u \<noteq> sid) users)"
          using filter_others by blast
        with True ne left(6) show ?thesis by simp
      next
        case False
        with ne us left(6) show ?thesis by simp
      qed
    qed
    moreover from o sock have "online_connected s'"
      by (auto simp: left(6) online_connected_def)
    ultimately show ?thesis using u' by (simp add: consistent_def)
  qed (use c in simp_all)
qed

lemma disconnect_consistent:
  assumes c: "consistent s" and sock: "sockets s sid = Some d"
    and l: "disconnect sid d s = (None, fx, s0)"
  shows "consistent (s0\<lparr>sockets := (sockets s0)(sid := None)\<rparr>)"
proof -
  let ?s' = "s0\<lparr>sockets := (sockets s0)(sid := None)\<rparr>"
  from c have u: "rooms_unique s" and a: "assigned_listed s" and o: "online_connected s"
    by (simp_all add: consistent_def)
  from disconnect_unique [OF u l] have u': "rooms_unique ?s'" by (simp add: rooms_unique_def)
  have on: "onlineUsers s0 = filter (\<lambda>user. socketId user \<noteq> sid) (onlineUsers s)"
    and so: "sockets s0 = sockets s"
    using l by (cases rule: disconnect_result; simp)+
  from o have o': "online_connected ?s'"
    by (auto simp: on so online_connected_def distinct_map_filter)
  have "roomUsers s0 = roomUsers s \<or> (\<exists>room users. room_members (roomUsers s) room = Inr users \<and>
      roomUsers s0 = (roomUsers s)(room \<mapsto> filter (\<lambda>u. socketId u \<noteq> sid) users))"
    using l by (cases rule: disconnect_result) auto
  then have "assigned_listed ?s'"
  proof
    assume same: "roomUsers s0 = roomUsers s"
    show ?thesis
    proof (rule assigned_listedI)
      fix sid' d' room'
      assume s: "sockets ?s' sid' = Some d'" and dr: "data_room d' = Some room'"
      then have "sockets s sid' = Some d'" by (auto simp: so split: if_splits)
      from assigned_listedD [OF a this dr] same
      show "room' \<noteq> [] \<and> (\<exists>us. roomUsers ?s' room' = Some us \<and> sid' \<in> socketId ` set us)"
        by simp
    qed
  next
    assume "\<exists>room users. room_members (roomUsers s) room = Inr users \<and>
      roomUsers s0 = (roomUsers s)(room \<mapsto> filter (\<lambda>u. socketId u \<noteq> sid) users)"
    then obtain room users where rm: "room_members (roomUsers s) room = Inr users"
      and ru: "roomUsers s0 = (roomUsers s)(room \<mapsto> filter (\<lambda>u. socketId u \<noteq> sid) users)"
      by blast
    show ?thesis
    proof (rule assigned_listedI)
      fix sid' d' room'
      assume s: "sockets ?s' sid' = Some d'" and dr: "data_room d' = Some room'"
      then have neq: "sid' \<noteq> sid" and s0: "sockets s sid' = Some d'"
        by (auto simp: so split: if_splits)
      from assigned_listedD [OF a s0 dr] obtain us where ne: "room' \<noteq> []"
        and us: "roomUsers s room' = Some us" "sid' \<in> socketId ` set us" by blast
      show "room' \<noteq> [] \<and> (\<exists>us. roomUsers ?s' room' = Some us \<and> sid' \<in> socketId ` set us)"
      proof (cases "room' = room")
        case True
        with us(1) rm have "us = users" by (simp add: room_members_def)
        with us(2) neq have "sid' \<in> socketId ` set (filter (\<lambda>u. socketId u \<noteq> sid) users)"
          using filter_others by blast
        with True ne ru show ?thesis by simp
      next
        case False
        with ne us ru show ?thesis by simp
      qed
    qed
  qed
  with u' o' show ?thesis by (simp add: consistent_def)
qed

lemma step_consistent:
  assumes "consistent s" and "step e s = (None, fx, s')"
  shows "consistent s'"
proof (cases e)
  case (Connection sid)
  with assms connection_consistent show ?thesis by (auto split: option.splits)
next
  case (JoinRoom sid roomRaw userPayload)
  with assms joinRoom_consistent show ?thesis by (auto split: option.splits)
next
  case (LeaveRoom sid roomRaw)
  with assms leaveRoom_consistent show ?thesis by (auto split: option.splits)
next
  case (ChatMessage sid now payload)
  with assms show ?thesis by (auto split: option.splits dest: chat_message_state)
next
  case (Disconnect sid)
  show ?thesis
  proof (cases "sockets s sid")
    case None
    with Disconnect assms show ?thesis by simp
  next
    case (Some d)
    obtain r0 fx0 s0 where d0: "disconnect sid d s = (r0, fx0, s0)" by (cases "disconnect sid d s")
    with Some Disconnect assms(2) have "r0 = None" and "s' = s0\<lparr>sockets := (sockets s0)(sid := None)\<rparr>"
      by auto
    with disconnect_consistent [OF assms(1) Some] d0 show ?thesis by simp
  qed
qed

lemma run_consistent:
  "consistent s \<Longrightarrow> run es s = (None, fx, s') \<Longrightarrow> consistent s'"
proof (induction es arbitrary: s fx s')
  case Nil
  then show ?case by simp
next
  case (Cons e es)
  obtain r1 fx1 s1 where st: "step e s = (r1, fx1, s1)" by (cases "step e s")
  obtain r2 fx2 s2 where rn: "run es s1 = (r2, fx2, s2)" by (cases "run es s1")
  from st rn Cons.prems(2) have "r1 = None" and "r2 = None" and "s' = s2"
    by (auto split: option.splits)
  with Cons.IH [of s1 fx2 s2] step_consistent [OF Cons.prems(1), of e fx1 s1] st rn
  show ?case by simp
qed

lemma init_consistent: "consistent init"
  by (simp add: consistent_def rooms_unique_def assigned_listed_def online_connected_def init_def)

section \<open>The global list never learns a user id\<close>

lemma step_online_anonymous:
  assumes "\<forall>u\<in>set (onlineUsers s). userId u = []" and "step e s = (r, fx, s')"
  shows "(\<forall>u\<in>set (onlineUsers s'). userId u = []) \<and>
         (\<forall>users. Io_emit_usersOnline users \<in> set fx \<longrightarrow> (\<forall>u\<in>set users. userId u = []))"
proof (cases e)
  case (Connection sid)
  with assms show ?thesis by (auto simp: connection_def Let_def split: option.splits)
next
  case (JoinRoom sid roomRaw userPayload)
  show ?thesis
  proof (cases "sockets s sid")
    case None
    with JoinRoom assms show ?thesis by simp
  next
    case (Some d)
    with JoinRoom assms(2) have "joinRoom sid d roomRaw userPayload s = (r, fx, s')" by simp
    then show ?thesis using assms(1) by (cases rule: joinRoom_result) simp_all
  qed
next
  case (LeaveRoom sid roomRaw)
  show ?thesis
  proof (cases "sockets s sid")
    case None
    with LeaveRoom assms show ?thesis by simp
  next
    case (Some d)
    with LeaveRoom assms(2) have "leaveRoom sid d roomRaw s = (r, fx, s')" by simp
    then show ?thesis using assms(1) by (cases rule: leaveRoom_result) simp_all
  qed
next
  case (ChatMessage sid now payload)
  show ?thesis
  proof (cases "sockets s sid")
    case None
    with ChatMessage assms show ?thesis by simp
  next
    case (Some d)
    with ChatMessage assms(2) have c: "chat_message sid d now payload s = (r, fx, s')" by simp
    have "\<forall>users. Io_emit_usersOnline users \<notin> set fx"
      using c by (auto simp: chat_message_def Let_def split: sum.splits if_splits)
    with chat_message_state [OF c] assms(1) show ?thesis by simp
  qed
next
  case (Disconnect sid)
  show ?thesis
  proof (cases "sockets s sid")
    case None
    with Disconnect assms show ?thesis by simp
  next
    case (Some d)
    obtain r0 fx0 s0 where d0: "disconnect sid d s = (r0, fx0, s0)" by (cases "disconnect sid d s")
    with Some Disconnect assms(2) have eq: "fx = fx0" "onlineUsers s' = onlineUsers s0" by auto
    from d0 have "(\<forall>u\<in>set (onlineUsers s0). userId u = []) \<and>
         (\<forall>users. Io_emit_usersOnline users \<in> set fx0 \<longrightarrow> (\<forall>u\<in>set users. userId u = []))"
      using assms(1) by (cases rule: disconnect_result) simp_all
    with eq show ?thesis by simp
  qed
qed

lemma run_online_anonymous:
  "\<forall>u\<in>set (onlineUsers s). userId u = [] \<Longrightarrow> run es s = (r, fx, s') \<Longrightarrow>
     (\<forall>u\<in>set (onlineUsers s'). userId u = []) \<and>
     (\<forall>users. Io_emit_usersOnline users \<in> set fx \<longrightarrow> (\<forall>u\<in>set users. userId u = []))"
proof (induction es arbitrary: s r fx s')
  case Nil
  then show ?case by simp
next
  case (Cons e es)
  obtain r1 fx1 s1 where st: "step e s = (r1, fx1, s1)" by (cases "step e s")
  note one = step_online_anonymous [OF Cons.prems(1) st]
  show ?case
  proof (cases r1)
    case (Some err)
    with st Cons.prems(2) have "s' = s1" "fx = fx1" by simp_all
    with one show ?thesis by simp
  next
    case None
    obtain r2 fx2 s2 where rn: "run es s1 = (r2, fx2, s2)" by (cases "run es s1")
    with st None Cons.prems(2) have eq: "s' = s2" "fx = fx1 @ fx2" by simp_all
    from Cons.IH [OF _ rn] one
    have "(\<forall>u\<in>set (onlineUsers s2). userId u = []) \<and>
     (\<forall>users. Io_emit_usersOnline users \<in> set fx2 \<longrightarrow> (\<forall>u\<in>set users. userId u = []))"
      by blast
    with one eq show ?thesis by auto
  qed
qed

lemma joinRoom_keeps_online:
  "step (JoinRoom sid roomRaw userPayload) s = (r, fx, s') \<Longrightarrow> onlineUsers s' = onlineUsers s"
proof (cases "sockets s sid")
  case None
  then show "step (JoinRoom sid roomRaw userPayload) s = (r, fx, s') \<Longrightarrow> ?thesis" by simp
next
  case (Some d)
  assume "step (JoinRoom sid roomRaw userPayload) s = (r, fx, s')"
  with Some have "joinRoom sid d roomRaw userPayload s = (r, fx, s')" by simp
  then show ?thesis by (cases rule: joinRoom_result) simp_all
qed

section \<open>Room membership\<close>

text \<open>
  After every sequence of events, run from the start of the server, each room's member
  list holds at most one entry per socket id. When a connected socket sends \<^verbatim>\<open>joinRoom\<close>
  for a room whose list already holds its entry, at index \<open>i\<close>, and lines 62 to 74 resolve
  a user id, the handler puts the entry with that user id at index \<open>i\<close> and leaves every
  other entry and the length of the list as they were; the room is sent that list.
\<close>

lemma room_members_unique_and_rejoin_in_place:
  assumes "run es init = (r, fx, s)"
  shows "(\<forall>room users. roomUsers s room = Some users \<longrightarrow> distinct (map socketId users)) \<and>
    (\<forall>sid d roomRaw userPayload room uid users i.
       sockets s sid = Some d \<and> normalize_room roomRaw = Inr room \<and> room \<noteq> [] \<and>
       resolve_uid sid userPayload = Inr uid \<and> roomUsers s room = Some users \<and>
       i < length users \<and> socketId (users ! i) = sid \<longrightarrow>
       step (JoinRoom sid roomRaw userPayload) s =
         (None,
          [Socket_join sid room,
           Io_to_usersOnline room (users[i := \<lparr>socketId = sid, userId = uid\<rparr>])],
          s\<lparr>roomUsers := (roomUsers s)(room \<mapsto> users[i := \<lparr>socketId = sid, userId = uid\<rparr>]),
            sockets := (sockets s)(sid \<mapsto> d\<lparr>data_room := Some room, data_userId := Some uid\<rparr>)\<rparr>))"
proof -
  from run_unique [OF init_unique assms] have u: "rooms_unique s" .
  then have "\<forall>room users. roomUsers s room = Some users \<longrightarrow> distinct (map socketId users)"
    by (simp add: rooms_unique_def)
  moreover have "\<forall>sid d roomRaw userPayload room uid users i.
       sockets s sid = Some d \<and> normalize_room roomRaw = Inr room \<and> room \<noteq> [] \<and>
       resolve_uid sid userPayload = Inr uid \<and> roomUsers s room = Some users \<and>
       i < length users \<and> socketId (users ! i) = sid \<longrightarrow>
       step (JoinRoom sid roomRaw userPayload) s =
         (None,
          [Socket_join sid room,
           Io_to_usersOnline room (users[i := \<lparr>socketId = sid, userId = uid\<rparr>])],
          s\<lparr>roomUsers := (roomUsers s)(room \<mapsto> users[i := \<lparr>socketId = sid, userId = uid\<rparr>]),
            sockets := (sockets s)(sid \<mapsto> d\<lparr>data_room := Some room, data_userId := Some uid\<rparr>)\<rparr>)"
    using rejoin_in_place [OF u] by blast
  ultimately show ?thesis by (rule conjI)
qed

text \<open>
  In the run \<open>two_in_lobby\<close> the room \<^verbatim>\<open>lobby\<close> lists \<^verbatim>\<open>c1\<close> before \<^verbatim>\<open>c2\<close>; when \<^verbatim>\<open>c1\<close> joins
  again as \<^verbatim>\<open>al\<close> it keeps the first place.
\<close>

lemma rejoin_in_place_example:
  "distinct (map socketId [\<lparr>socketId = ''c1'', userId = ''alice''\<rparr>, \<lparr>socketId = ''c2'', userId = ''bob''\<rparr>]) \<and>
   fst (snd (step (JoinRoom ''c1'' (JStr ''lobby'') (JStr ''al'')) (snd (snd (run two_in_lobby init))))) =
     [Socket_join ''c1'' ''lobby'',
      Io_to_usersOnline ''lobby''
        [\<lparr>socketId = ''c1'', userId = ''al''\<rparr>, \<lparr>socketId = ''c2'', userId = ''bob''\<rparr>]]"
proof -
  let ?s = "snd (snd (run two_in_lobby init))"
  have run: "run two_in_lobby init = (fst (run two_in_lobby init), fst (snd (run two_in_lobby init)), ?s)"
    by simp
  have n: "normalize_room (JStr ''lobby'') = Inr ''lobby''" and ne: "''lobby'' \<noteq> []"
    and uid: "resolve_uid ''c1'' (JStr ''al'') = Inr ''al''"
    by (simp_all add: eval)
  note main = room_members_unique_and_rejoin_in_place [OF run]
  from main [THEN conjunct1, rule_format, OF two_in_lobby_rooms]
  have d: "distinct (map socketId [\<lparr>socketId = ''c1'', userId = ''alice''\<rparr>, \<lparr>socketId = ''c2'', userId = ''bob''\<rparr>])" .
  from main [THEN conjunct2, rule_format, of "''c1''" _ "JStr ''lobby''" "''lobby''" "JStr ''al''" "''al''" _ 0]
    two_in_lobby_sockets two_in_lobby_rooms n ne uid
  have "fst (snd (step (JoinRoom ''c1'' (JStr ''lobby'') (JStr ''al'')) ?s)) =
     [Socket_join ''c1'' ''lobby'',
      Io_to_usersOnline ''lobby''
        [\<lparr>socketId = ''c1'', userId = ''al''\<rparr>, \<lparr>socketId = ''c2'', userId = ''bob''\<rparr>]]"
    by simp
  with d show ?thesis by (rule conjI)
qed

text \<open>
  Claim C1 says that a socket which joins again a room it is in, possibly under another
  identity, has its entry replaced in place. With an identity that is an object without
  \<^verbatim>\<open>uid\<close>, \<^verbatim>\<open>userId\<close> and \<^verbatim>\<open>id\<close> the code does not replace it: \<^verbatim>\<open>c1\<close>, listed in \<^verbatim>\<open>lobby\<close> as
  \<^verbatim>\<open>alice\<close>, sends \<^verbatim>\<open>joinRoom("lobby", {})\<close>; line 70 raises ReferenceError, the room is sent
  nothing, and its list still shows \<^verbatim>\<open>c1\<close> as \<^verbatim>\<open>alice\<close>.
\<close>

theorem rejoin_without_id_raises:
  "run [JoinRoom ''c1'' (JStr ''lobby'') (JObj [])] (snd (snd (run two_in_lobby init))) =
     (Some ReferenceError,
      [Socket_join ''c1'' ''lobby''],
      (snd (snd (run two_in_lobby init)))
        \<lparr>sockets := (sockets (snd (snd (run two_in_lobby init))))
           (''c1'' \<mapsto> \<lparr>data_room = Some ''lobby'', data_userId = Some ''alice''\<rparr>)\<rparr>) \<and>
   roomUsers (snd (snd (run two_in_lobby init))) ''lobby'' =
     Some [\<lparr>socketId = ''c1'', userId = ''alice''\<rparr>, \<lparr>socketId = ''c2'', userId = ''bob''\<rparr>]"
  by (simp add: two_in_lobby_sockets two_in_lobby_rooms joinRoom_def normalize_room_def
      coalesce_def trim_def white_def resolve_uid_def uid_of_object_def announced_def Let_def)

section \<open>The identity announced with \<^verbatim>\<open>joinRoom\<close>\<close>

text \<open>
  An object that has none of the properties \<^verbatim>\<open>uid\<close>, \<^verbatim>\<open>userId\<close>, \<^verbatim>\<open>id\<close> resolves to no
  user id: line 70 raises.
\<close>

lemma uid_of_object_without_id:
  assumes "map_of ps ''uid'' = None" "map_of ps ''userId'' = None" "map_of ps ''id'' = None"
  shows "resolve_uid sid (JObj ps) = Inl ReferenceError"
  using assms by (simp add: resolve_uid_def uid_of_object_def announced_def coalesce_def)

text \<open>
  Claim C2 says that a \<^verbatim>\<open>joinRoom\<close> whose identity is an object without \<^verbatim>\<open>uid\<close>,
  \<^verbatim>\<open>userId\<close> and \<^verbatim>\<open>id\<close> stores the socket id as the member's user id. The code does not:
  for the socket \<^verbatim>\<open>c1\<close>, \<^verbatim>\<open>joinRoom("lobby", {})\<close> raises ReferenceError after
  \<^verbatim>\<open>socket.join\<close> and the assignment of \<^verbatim>\<open>socket.data.room\<close>; no member is stored and nothing is
  sent to the room.
\<close>

theorem joinRoom_object_without_id_raises:
  "run [Connection ''c1'', JoinRoom ''c1'' (JStr ''lobby'') (JObj [])] init =
     (Some ReferenceError,
      [Io_emit_usersOnline [\<lparr>socketId = ''c1'', userId = []\<rparr>],
       Console_log_connected ''c1'' 1,
       Socket_join ''c1'' ''lobby''],
      \<lparr>onlineUsers = [\<lparr>socketId = ''c1'', userId = []\<rparr>],
        roomUsers = Map.empty,
        sockets = [''c1'' \<mapsto> \<lparr>data_room = Some ''lobby'', data_userId = None\<rparr>]\<rparr>)"
  by (simp add: init_def eval)

section \<open>Payloads that make a handler raise\<close>

text \<open>
  Claim C3 says that no payload makes a handler raise. Five payloads that do: an object
  and an array without an id as the identity of \<^verbatim>\<open>joinRoom\<close> (ReferenceError, and the
  \<^verbatim>\<open>joinRoom\<close> of the second socket is never handled); a room that is an object with an own
  property \<^verbatim>\<open>toString\<close>; the room name \<^verbatim>\<open>constructor\<close> in \<^verbatim>\<open>leaveRoom\<close>; a message that is
  an array holding an object with an own property \<^verbatim>\<open>toString\<close> (TypeError).
\<close>

theorem malformed_payloads_raise:
  "fst (run [Connection ''c1'', Connection ''c2'',
             JoinRoom ''c1'' (JStr ''lobby'') (JObj [(''displayName'', JStr ''Bob'')]),
             JoinRoom ''c2'' (JStr ''lobby'') (JStr ''carol'')] init) = Some ReferenceError \<and>
   fst (run [Connection ''c1'', JoinRoom ''c1'' (JStr ''lobby'') (JArr [])] init) = Some ReferenceError \<and>
   fst (run [Connection ''c1'', JoinRoom ''c1'' (JObj [(''toString'', JNull)]) JUndefined] init) = Some TypeError \<and>
   fst (run [Connection ''c1'', LeaveRoom ''c1'' (JStr ''constructor'')] init) = Some TypeError \<and>
   fst (run [Connection ''c1'',
             ChatMessage ''c1'' ''2026-01-01T00:00:00.000Z''
               (JObj [(''message'', JArr [JObj [(''toString'', JNum ''1'')]])])] init) = Some TypeError"
  by (simp add: init_def eval)

section \<open>Leaving a room the socket is not in\<close>

text \<open>
  Claim C4 says that a \<^verbatim>\<open>leaveRoom\<close> for a room the connection never joined emits no
  \<^verbatim>\<open>usersOnline\<close>. The handler has no test of membership: the socket \<^verbatim>\<open>c3\<close>, which joined
  nothing, leaves \<^verbatim>\<open>lobby\<close>, and the room is sent its list.
\<close>

theorem leaveRoom_never_joined_broadcasts:
  "fst (snd (step (LeaveRoom ''c3'' (JStr ''lobby'')) (snd (snd (run lobby_and_visitor init))))) =
     [Socket_leave ''c3'' ''lobby'',
      Io_to_usersOnline ''lobby''
        [\<lparr>socketId = ''c1'', userId = ''alice''\<rparr>, \<lparr>socketId = ''c2'', userId = ''bob''\<rparr>]]"
  by (simp add: lobby_and_visitor_sockets lobby_and_visitor_rooms leaveRoom_def
      normalize_room_def coalesce_def trim_def white_def room_members_def Let_def)

text \<open>
  Claim C4, amended. Let the room name, trimmed, be non-empty, and let it be a stored
  room or a name that \<^verbatim>\<open>Object.prototype\<close> does not define. When a connected socket that
  the room does not list sends \<^verbatim>\<open>leaveRoom\<close>, no error is raised and the room keeps its
  member list (a room that was absent is stored with the empty list); the handler calls
  \<^verbatim>\<open>socket.leave\<close>, sends the room that unchanged list as one \<^verbatim>\<open>usersOnline\<close>, and deletes
  \<^verbatim>\<open>room\<close> and \<^verbatim>\<open>userId\<close> from the socket's data.
\<close>

theorem leaveRoom_never_joined:
  assumes "sockets s sid = Some d"
    and "normalize_room roomRaw = Inr room" and "room \<noteq> []"
    and "room_members (roomUsers s) room = Inr users"
    and "sid \<notin> socketId ` set users"
  shows "step (LeaveRoom sid roomRaw) s =
    (None,
     [Socket_leave sid room, Io_to_usersOnline room users],
     s\<lparr>roomUsers := (roomUsers s)(room \<mapsto> users),
       sockets := (sockets s)(sid \<mapsto> d\<lparr>data_room := None, data_userId := None\<rparr>)\<rparr>)"
proof -
  from assms(5) have "filter (\<lambda>u. socketId u \<noteq> sid) users = users"
    by (auto simp: filter_id_conv)
  with assms(1-4) show ?thesis by (simp add: leaveRoom_def)
qed

text \<open>The same socket and room as above.\<close>

theorem leaveRoom_never_joined_witness:
  "step (LeaveRoom ''c3'' (JStr ''lobby'')) (snd (snd (run lobby_and_visitor init))) =
    (None,
     [Socket_leave ''c3'' ''lobby'',
      Io_to_usersOnline ''lobby''
        [\<lparr>socketId = ''c1'', userId = ''alice''\<rparr>, \<lparr>socketId = ''c2'', userId = ''bob''\<rparr>]],
     (snd (snd (run lobby_and_visitor init)))
       \<lparr>roomUsers := (roomUsers (snd (snd (run lobby_and_visitor init))))
          (''lobby'' \<mapsto> [\<lparr>socketId = ''c1'', userId = ''alice''\<rparr>, \<lparr>socketId = ''c2'', userId = ''bob''\<rparr>]),
        sockets := (sockets (snd (snd (run lobby_and_visitor init))))
          (''c3'' \<mapsto> \<lparr>data_room = None, data_userId = None\<rparr>)\<rparr>)"
proof -
  let ?s = "snd (snd (run lobby_and_visitor init))"
  let ?users = "[\<lparr>socketId = ''c1'', userId = ''alice''\<rparr>, \<lparr>socketId = ''c2'', userId = ''bob''\<rparr>]"
  have n: "normalize_room (JStr ''lobby'') = Inr ''lobby''" and ne: "''lobby'' \<noteq> []"
    by (simp_all add: eval)
  have m: "room_members (roomUsers ?s) ''lobby'' = Inr ?users"
    by (simp add: room_members_def lobby_and_visitor_rooms)
  have notin: "''c3'' \<notin> socketId ` set ?users" by simp
  from leaveRoom_never_joined [OF lobby_and_visitor_sockets n ne m notin]
  show ?thesis by simp
qed

section \<open>Disconnecting\<close>

text \<open>
  Claim C5. Take any state the server reaches without a handler having raised, and a
  connected socket. The global list holds the socket once; \<^verbatim>\<open>disconnect\<close> raises nothing
  and removes that entry. If the socket's data names no room, the only call is one
  \<^verbatim>\<open>io.emit\<close> of the new global list. If it names a room, that room lists the socket once,
  the entry is removed, and the calls are one \<^verbatim>\<open>usersOnline\<close> to the room with its new
  list followed by one \<^verbatim>\<open>io.emit\<close> of the new global list.
\<close>

theorem disconnect_removes_once:
  assumes "run es init = (None, fx0, s)" and "sockets s sid = Some d"
  shows "length (filter (\<lambda>u. socketId u = sid) (onlineUsers s)) = 1 \<and>
    (case data_room d of
       None \<Rightarrow>
         step (Disconnect sid) s =
           (None,
            [Io_emit_usersOnline (filter (\<lambda>u. socketId u \<noteq> sid) (onlineUsers s))],
            s\<lparr>onlineUsers := filter (\<lambda>u. socketId u \<noteq> sid) (onlineUsers s),
              sockets := (sockets s)(sid := None)\<rparr>)
     | Some room \<Rightarrow>
         (\<exists>users. roomUsers s room = Some users \<and>
            length (filter (\<lambda>u. socketId u = sid) users) = 1 \<and>
            step (Disconnect sid) s =
              (None,
               [Io_to_usersOnline room (filter (\<lambda>u. socketId u \<noteq> sid) users),
                Io_emit_usersOnline (filter (\<lambda>u. socketId u \<noteq> sid) (onlineUsers s))],
               s\<lparr>onlineUsers := filter (\<lambda>u. socketId u \<noteq> sid) (onlineUsers s),
                 roomUsers := (roomUsers s)(room \<mapsto> filter (\<lambda>u. socketId u \<noteq> sid) users),
                 sockets := (sockets s)(sid := None)\<rparr>)))"
proof -
  from run_consistent [OF init_consistent assms(1)]
  have u: "rooms_unique s" and a: "assigned_listed s" and o: "online_connected s"
    by (simp_all add: consistent_def)
  from o assms(2) have "distinct (map socketId (onlineUsers s))"
    and "sid \<in> socketId ` set (onlineUsers s)"
    by (auto simp: online_connected_def)
  then have once: "length (filter (\<lambda>u. socketId u = sid) (onlineUsers s)) = 1"
    by (rule count_one)
  show ?thesis
  proof (cases "data_room d")
    case None
    with assms(2) once show ?thesis by (simp add: disconnect_def Let_def)
  next
    case (Some room)
    from assigned_listedD [OF a assms(2) Some] obtain users where ne: "room \<noteq> []"
      and users: "roomUsers s room = Some users" and mem: "sid \<in> socketId ` set users"
      by blast
    from u users have "distinct (map socketId users)" by (simp add: rooms_unique_def)
    from count_one [OF this mem]
    have once_room: "length (filter (\<lambda>u. socketId u = sid) users) = 1" .
    from users have "room_members (roomUsers s) room = Inr users" by (rule room_members_stored)
    with Some ne assms(2)
    have "step (Disconnect sid) s =
              (None,
               [Io_to_usersOnline room (filter (\<lambda>u. socketId u \<noteq> sid) users),
                Io_emit_usersOnline (filter (\<lambda>u. socketId u \<noteq> sid) (onlineUsers s))],
               s\<lparr>onlineUsers := filter (\<lambda>u. socketId u \<noteq> sid) (onlineUsers s),
                 roomUsers := (roomUsers s)(room \<mapsto> filter (\<lambda>u. socketId u \<noteq> sid) users),
                 sockets := (sockets s)(sid := None)\<rparr>)"
      by (simp add: disconnect_def Let_def)
    with users once_room have "\<exists>users. roomUsers s room = Some users \<and>
            length (filter (\<lambda>u. socketId u = sid) users) = 1 \<and>
            step (Disconnect sid) s =
              (None,
               [Io_to_usersOnline room (filter (\<lambda>u. socketId u \<noteq> sid) users),
                Io_emit_usersOnline (filter (\<lambda>u. socketId u \<noteq> sid) (onlineUsers s))],
               s\<lparr>onlineUsers := filter (\<lambda>u. socketId u \<noteq> sid) (onlineUsers s),
                 roomUsers := (roomUsers s)(room \<mapsto> filter (\<lambda>u. socketId u \<noteq> sid) users),
                 sockets := (sockets s)(sid := None)\<rparr>)"
      by blast
    with Some once show ?thesis by simp
  qed
qed

text \<open>
  Both sockets are in \<^verbatim>\<open>lobby\<close> and \<^verbatim>\<open>c1\<close> disconnects: the room and the global list are
  each sent once, with \<^verbatim>\<open>c2\<close> only.
\<close>

theorem disconnect_removes_once_witness:
  "fst (snd (step (Disconnect ''c1'') (snd (snd (run two_in_lobby init))))) =
     [Io_to_usersOnline ''lobby'' [\<lparr>socketId = ''c2'', userId = ''bob''\<rparr>],
      Io_emit_usersOnline [\<lparr>socketId = ''c2'', userId = []\<rparr>]]"
proof -
  let ?s = "snd (snd (run two_in_lobby init))"
  from disconnect_removes_once [OF two_in_lobby_run two_in_lobby_sockets]
  show ?thesis by (auto simp: two_in_lobby_rooms two_in_lobby_online)
qed

section \<open>\<^verbatim>\<open>joinRoom\<close> without a room\<close>

text \<open>
  Claim C6. A \<^verbatim>\<open>joinRoom\<close> whose room, converted to a string and trimmed, is empty is
  ignored: no error, no call to the transport, and the registry and the data of every
  socket are as before.
\<close>

theorem joinRoom_empty_room_ignored:
  assumes "normalize_room roomRaw = Inr []"
  shows "step (JoinRoom sid roomRaw userPayload) s = (None, [], s)"
  using assms by (simp add: joinRoom_def split: option.splits)

text \<open>A room of three spaces, sent by a socket that is in \<^verbatim>\<open>lobby\<close>.\<close>

theorem joinRoom_empty_room_ignored_witness:
  "normalize_room (JStr ''   '') = Inr [] \<and>
   step (JoinRoom ''c1'' (JStr ''   '') (JStr ''alice'')) (snd (snd (run two_in_lobby init))) =
     (None, [], snd (snd (run two_in_lobby init)))"
proof -
  have n: "normalize_room (JStr ''   '') = Inr []" by (simp add: eval)
  from n joinRoom_empty_room_ignored [OF n] show ?thesis by simp
qed

section \<open>Chat messages that are dropped\<close>




section \<open>The relayed message\<close>

text \<open>
  Claim C8. Whenever the handler sends a \<^verbatim>\<open>chat:message\<close>, it sends exactly one, to the
  room of the payload or else the stored room, and raises nothing. The message sent has
  as \<^verbatim>\<open>userId\<close> the payload's \<^verbatim>\<open>userId\<close> if that is neither \<^verbatim>\<open>undefined\<close> nor \<^verbatim>\<open>null\<close>, else
  the user id of the sender's entry in that room, else the socket id; as \<^verbatim>\<open>message\<close> the
  trimmed text; as \<^verbatim>\<open>timestamp\<close> the payload's or else the clock's; as \<^verbatim>\<open>clientId\<close> the
  payload's or else \<^verbatim>\<open>undefined\<close>.
\<close>

theorem relayed_message_fields:
  assumes "chat_message sid d now payload s = (r, fx, s')"
    and "Io_to_chat_message room m \<in> set fx"
  shows "\<exists>t key users.
    trimmed_message payload = Inr t \<and> t \<noteq> [] \<and> truthy room \<and>
    room = (if \<not> nullish (opt_prop payload ''room'') then opt_prop payload ''room''
            else (case data_room d of None \<Rightarrow> JNull | Some stored \<Rightarrow> JStr stored)) \<and>
    ToString room = Inr key \<and> room_members (roomUsers s) key = Inr users \<and>
    r = None \<and> fx = [Io_to_chat_message room m] \<and> s' = s \<and>
    m = JObj
      [(''userId'',
        if \<not> nullish (opt_prop payload ''userId'') then opt_prop payload ''userId''
        else (case find (\<lambda>u. socketId u = sid) users of
                Some member \<Rightarrow> JStr (userId member)
              | None \<Rightarrow> JStr sid)),
       (''message'', JStr t),
       (''timestamp'',
        if \<not> nullish (opt_prop payload ''timestamp'') then opt_prop payload ''timestamp''
        else JStr now),
       (''clientId'',
        if \<not> nullish (opt_prop payload ''clientId'') then opt_prop payload ''clientId''
        else JUndefined)]"
proof (cases "trimmed_message payload")
  case (Inl e)
  with assms(1) have "fx = []" by (simp add: chat_message_def)
  with assms(2) show ?thesis by simp
next
  case t: (Inr t)
  show ?thesis
  proof (cases "t = []")
    case True
    with t assms(1) have "fx = []" by (simp add: chat_message_def)
    with assms(2) show ?thesis by simp
  next
    case ne: False
    from trimmed_message_object [OF t ne] obtain ps where ps: "payload = JObj ps" ..
    define stored where "stored = (case data_room d of None \<Rightarrow> JUndefined | Some r \<Rightarrow> JStr r)"
    define room0 where "room0 = coalesce (coalesce (opt_prop payload ''room'') stored) JNull"
    have gp: "get_prop payload ''room'' = Inr (opt_prop payload ''room'')"
      by (simp add: ps opt_prop_def)
    show ?thesis
    proof (cases "truthy room0")
      case False
      with t ne gp assms(1)
      have "fx = [Console_warn ''chat:message received without room, ignoring'']"
        by (auto simp: chat_message_def Let_def room0_def stored_def)
      with assms(2) show ?thesis by simp
    next
      case tr: True
      show ?thesis
      proof (cases "ToString room0")
        case (Inl e)
        with t ne gp tr assms(1) have "fx = []"
          by (auto simp: chat_message_def Let_def room0_def stored_def)
        with assms(2) show ?thesis by simp
      next
        case key: (Inr key)
        show ?thesis
        proof (cases "room_members (roomUsers s) key")
          case (Inl e)
          with t ne gp tr key assms(1) have "fx = []"
            by (auto simp: chat_message_def Let_def room0_def stored_def)
          with assms(2) show ?thesis by simp
        next
          case users: (Inr users)
          define m0 where "m0 = JObj
              [(''userId'',
                coalesce (opt_prop payload ''userId'')
                  (coalesce (case find (\<lambda>user. socketId user = sid) users of
                               None \<Rightarrow> JUndefined
                             | Some user \<Rightarrow> JStr (userId user)) (JStr sid))),
               (''message'', JStr t),
               (''timestamp'', coalesce (opt_prop payload ''timestamp'') (JStr now)),
               (''clientId'', coalesce (opt_prop payload ''clientId'') JUndefined)]"
          have r0: "room0 = (if \<not> nullish (opt_prop payload ''room'') then opt_prop payload ''room''
            else (case data_room d of None \<Rightarrow> JNull | Some stored \<Rightarrow> JStr stored))"
            by (simp add: room0_def stored_def coalesce_def split: option.splits)
          from t ne gp tr key users assms(1)
          have res: "r = None \<and> s' = s \<and> fx = [Io_to_chat_message room0 m0]"
            by (auto simp: chat_message_def Let_def room0_def stored_def m0_def)
          with assms(2) have rm: "room = room0" and m: "m = m0" by simp_all
          have m0: "m0 = JObj
            [(''userId'',
              if \<not> nullish (opt_prop payload ''userId'') then opt_prop payload ''userId''
              else (case find (\<lambda>u. socketId u = sid) users of
                      Some member \<Rightarrow> JStr (userId member)
                    | None \<Rightarrow> JStr sid)),
             (''message'', JStr t),
             (''timestamp'',
              if \<not> nullish (opt_prop payload ''timestamp'') then opt_prop payload ''timestamp''
              else JStr now),
             (''clientId'',
              if \<not> nullish (opt_prop payload ''clientId'') then opt_prop payload ''clientId''
              else JUndefined)]"
            by (simp add: m0_def coalesce_def split: option.splits)
          have "trimmed_message payload = Inr t \<and> t \<noteq> [] \<and> truthy room0 \<and>
            room0 = (if \<not> nullish (opt_prop payload ''room'') then opt_prop payload ''room''
              else (case data_room d of None \<Rightarrow> JNull | Some stored \<Rightarrow> JStr stored)) \<and>
            ToString room0 = Inr key \<and> room_members (roomUsers s) key = Inr users \<and>
            r = None \<and> fx = [Io_to_chat_message room0 m0] \<and> s' = s"
            using t ne tr r0 key users res by blast
          then show ?thesis unfolding rm m m0 by blast
        qed
      qed
    qed
  qed
qed

text \<open>
  The socket \<^verbatim>\<open>c2\<close>, which joined \<^verbatim>\<open>lobby\<close> as \<^verbatim>\<open>{uid: "bob"}\<close>, sends the message
  \<^verbatim>\<open>" hi "\<close> and nothing else.
\<close>

theorem relayed_message_fields_witness:
  "chat_message ''c2'' \<lparr>data_room = Some ''lobby'', data_userId = Some ''bob''\<rparr>
     ''2026-01-01T00:00:00.000Z'' (JObj [(''message'', JStr '' hi '')])
     (snd (snd (run two_in_lobby init))) =
   (None,
    [Io_to_chat_message (JStr ''lobby'')
       (JObj [(''userId'', JStr ''bob''), (''message'', JStr ''hi''),
              (''timestamp'', JStr ''2026-01-01T00:00:00.000Z''),
              (''clientId'', JUndefined)])],
    snd (snd (run two_in_lobby init)))"
proof -
  let ?s = "snd (snd (run two_in_lobby init))"
  let ?d = "\<lparr>data_room = Some ''lobby'', data_userId = Some ''bob''\<rparr>"
  let ?p = "JObj [(''message'', JStr '' hi '')]"
  obtain r fx s' where ev: "chat_message ''c2'' ?d ''2026-01-01T00:00:00.000Z'' ?p ?s = (r, fx, s')"
    by (cases "chat_message ''c2'' ?d ''2026-01-01T00:00:00.000Z'' ?p ?s")
  then have "\<exists>m. Io_to_chat_message (JStr ''lobby'') m \<in> set fx"
    by (auto simp: chat_message_def trimmed_message_def opt_prop_def coalesce_def trim_def
          white_def room_members_def two_in_lobby_rooms Let_def)
  then obtain m where "Io_to_chat_message (JStr ''lobby'') m \<in> set fx" ..
  from relayed_message_fields [OF ev this] two_in_lobby_rooms
  have "r = None \<and> s' = ?s \<and> fx = [Io_to_chat_message (JStr ''lobby'')
       (JObj [(''userId'', JStr ''bob''), (''message'', JStr ''hi''),
              (''timestamp'', JStr ''2026-01-01T00:00:00.000Z''),
              (''clientId'', JUndefined)])]"
    by (auto simp: trimmed_message_def opt_prop_def coalesce_def trim_def white_def
          room_members_def)
  with ev show ?thesis by simp
qed

section \<open>Global presence\<close>

text \<open>
  Claim C9. After every sequence of events, every entry of the global list has the empty
  user id, and so had every entry of every list that \<^verbatim>\<open>io.emit("usersOnline", ...)\<close> sent
  on the way; a \<^verbatim>\<open>joinRoom\<close>, whatever it carries, leaves the global list as it is.
\<close>

theorem global_presence_userId_empty:
  assumes "run es init = (r, fx, s)"
  shows "(\<forall>u\<in>set (onlineUsers s). userId u = []) \<and>
    (\<forall>users. Io_emit_usersOnline users \<in> set fx \<longrightarrow> (\<forall>u\<in>set users. userId u = [])) \<and>
    (\<forall>sid roomRaw userPayload.
       onlineUsers (snd (snd (step (JoinRoom sid roomRaw userPayload) s))) = onlineUsers s)"
proof -
  have "\<forall>u\<in>set (onlineUsers init). userId u = []" by (simp add: init_def)
  from run_online_anonymous [OF this assms]
  have "(\<forall>u\<in>set (onlineUsers s). userId u = []) \<and>
    (\<forall>users. Io_emit_usersOnline users \<in> set fx \<longrightarrow> (\<forall>u\<in>set users. userId u = []))" .
  moreover have "\<forall>sid roomRaw userPayload.
       onlineUsers (snd (snd (step (JoinRoom sid roomRaw userPayload) s))) = onlineUsers s"
    using joinRoom_keeps_online by (metis prod.collapse)
  ultimately show ?thesis by simp
qed

text \<open>
  Both sockets announced a user id when they joined \<^verbatim>\<open>lobby\<close>; the global list shows
  neither.
\<close>

theorem global_presence_userId_empty_witness:
  "map userId (onlineUsers (snd (snd (run two_in_lobby init)))) = [[], []] \<and>
   map socketId (onlineUsers (snd (snd (run two_in_lobby init)))) = [''c1'', ''c2''] \<and>
   Io_emit_usersOnline [\<lparr>socketId = ''c1'', userId = []\<rparr>, \<lparr>socketId = ''c2'', userId = []\<rparr>]
     \<in> set (fst (snd (run two_in_lobby init)))"
proof -
  let ?s = "snd (snd (run two_in_lobby init))"
  from global_presence_userId_empty [OF two_in_lobby_run]
  have "\<forall>u\<in>set (onlineUsers ?s). userId u = []" by blast
  then have "map userId (onlineUsers ?s) = replicate (length (onlineUsers ?s)) []"
    by (simp add: map_replicate_const [symmetric] cong: map_cong)
  then have "map userId (onlineUsers ?s) = [[], []]"
    by (simp add: two_in_lobby_online)
  moreover have "Io_emit_usersOnline [\<lparr>socketId = ''c1'', userId = []\<rparr>, \<lparr>socketId = ''c2'', userId = []\<rparr>]
     \<in> set (fst (snd (run two_in_lobby init)))"
    by (subst two_in_lobby_run) simp
  ultimately show ?thesis by (simp add: two_in_lobby_online)
qed

section \<open>Relaying to a room the sender is not in\<close>

text \<open>
  A message with a text, for a room that is stored or whose name \<^verbatim>\<open>Object.prototype\<close> does
  not define, is relayed although the room does not list the sender; the \<^verbatim>\<open>userId\<close> sent
  is the payload's or else the socket id.
\<close>

lemma relay_without_membership:
  assumes "trimmed_message (JObj ps) = Inr t" and "t \<noteq> []"
    and "map_of ps ''room'' = Some (JStr room)" and "room \<noteq> []"
    and "room_members (roomUsers s) room = Inr users"
    and "sid \<notin> socketId ` set users"
  shows "chat_message sid d now (JObj ps) s =
    (None,
     [Io_to_chat_message (JStr room)
        (JObj [(''userId'', coalesce (opt_prop (JObj ps) ''userId'') (JStr sid)),
               (''message'', JStr t),
               (''timestamp'', coalesce (opt_prop (JObj ps) ''timestamp'') (JStr now)),
               (''clientId'', coalesce (opt_prop (JObj ps) ''clientId'') JUndefined)])],
     s)"
proof -
  from assms(6) have "find (\<lambda>user. socketId user = sid) users = None"
    by (auto simp: find_None_iff)
  with assms(1-5) show ?thesis
    by (simp add: chat_message_def coalesce_def Let_def)
qed

text \<open>
  Claim C10 says that a message with a non-empty text is relayed to every non-empty room
  name given in the payload. For the room name \<^verbatim>\<open>constructor\<close> it is not: \<^verbatim>\<open>roomUsers[room]\<close>
  reads the function that \<^verbatim>\<open>Object.prototype\<close> gives every object, \<^verbatim>\<open>users.find\<close> is no
  function, and the handler raises TypeError before it sends anything.
\<close>

theorem chat_message_to_inherited_name_raises:
  "run [Connection ''c1'',
        ChatMessage ''c1'' ''2026-01-01T00:00:00.000Z''
          (JObj [(''room'', JStr ''constructor''), (''message'', JStr ''hi'')])] init =
     (Some TypeError,
      [Io_emit_usersOnline [\<lparr>socketId = ''c1'', userId = []\<rparr>],
       Console_log_connected ''c1'' 1],
      \<lparr>onlineUsers = [\<lparr>socketId = ''c1'', userId = []\<rparr>],
        roomUsers = Map.empty,
        sockets = [''c1'' \<mapsto> \<lparr>data_room = None, data_userId = None\<rparr>]\<rparr>)"
  by (simp add: init_def eval)

end
